theory Spec2Isabelle
  imports Main "HOL-Library.List_Lexorder" "HOL-Library.Char_ord" "HOL-Library.Multiset"
begin

unbundle bit_operations_syntax

section \<open>Package phpcompat: the PHP version catalogue and its set operations\<close>

text \<open>
  Go strings are byte sequences compared bytewise, which is the lexicographic order on
  \<open>char list\<close>; \<open>sort.Strings\<close> returns the one ascending arrangement of its argument,
  here \<open>sort\<close>.
\<close>

text \<open>
  \<open>phpVersions\<close>: a map from major.minor to a map holding the key \<open>max\<close>, written as
  association lists in the order of the source text.
\<close>

definition phpVersions :: "(string \<times> (string \<times> string) list) list" where
  "phpVersions =
    [(''5.2'', [(''max'', ''5.2.17'')]),
     (''5.3'', [(''max'', ''5.3.29'')]),
     (''5.4'', [(''max'', ''5.4.45'')]),
     (''5.5'', [(''max'', ''5.5.38'')]),
     (''5.6'', [(''max'', ''5.6.40'')]),
     (''7.0'', [(''max'', ''7.0.33'')]),
     (''7.1'', [(''max'', ''7.1.31'')]),
     (''7.2'', [(''max'', ''7.2.21'')]),
     (''7.3'', [(''max'', ''7.3.8'')])]"


text \<open>
  \<open>phpVersions[k][f]\<close>: a missing key of the outer map gives the nil map, a missing key
  of the inner map the empty string.
\<close>

definition phpVersions_at :: "string \<Rightarrow> string \<Rightarrow> string" where
  "phpVersions_at k f =
    (case map_of phpVersions k of
       None \<Rightarrow> ''''
     | Some item \<Rightarrow> (case map_of item f of None \<Rightarrow> '''' | Some v \<Rightarrow> v))"

fun contains :: "string list \<Rightarrow> string \<Rightarrow> bool" where
  "contains [] v = False"
| "contains (item # slice) v = (if item = v then True else contains slice v)"

text \<open>
  \<open>PhpMajorVersions\<close> ranges over the map in an order that Go leaves open, appends
  every key and sorts. \<open>PhpMajorVersions_from\<close> is the function for one order of
  iteration; the order of the source text is taken for \<open>PhpMajorVersions\<close>.
\<close>

definition PhpMajorVersions_from :: "string list \<Rightarrow> string list" where
  "PhpMajorVersions_from keys = sort (foldl (\<lambda>versions key. versions @ [key]) [] keys)"

definition PhpMajorVersions :: "string list" where
  "PhpMajorVersions = PhpMajorVersions_from (map fst phpVersions)"

definition merge_value :: "string list \<Rightarrow> string \<Rightarrow> string list" where
  "merge_value merged v = (if \<not> contains merged v then merged @ [v] else merged)"

definition MergeVersions :: "string list list \<Rightarrow> string list" where
  "MergeVersions n = foldl (\<lambda>merged slice. foldl merge_value merged slice) [] n"

definition exclude_value :: "string list \<Rightarrow> string list \<Rightarrow> string \<Rightarrow> string list" where
  "exclude_value exclude included version =
    (if \<not> contains exclude version \<and> \<not> contains included version
     then included @ [version] else included)"

definition ExcludeVersions :: "string list \<Rightarrow> string list \<Rightarrow> string list" where
  "ExcludeVersions versions exclude = sort (foldl (exclude_value exclude) [] versions)"

section \<open>Package phpcompat: the previous version\<close>

text \<open>
  The parts of Go's \<open>strings\<close> and \<open>strconv\<close> that \<open>PreviousVersion\<close> calls.
  \<open>Split s c\<close> is \<open>strings.Split\<close> for the one-byte separator \<open>c\<close>: one more piece
  than there are separators, so \<open>Split [] c = [[]]\<close>. \<open>Join\<close> is \<open>strings.Join\<close>.
\<close>

fun Split :: "string \<Rightarrow> char \<Rightarrow> string list" where
  "Split [] c = [[]]"
| "Split (x # s) c =
    (if x = c then [] # Split s c
     else (case Split s c of [] \<Rightarrow> [[x]] | p # ps \<Rightarrow> (x # p) # ps))"

fun Join :: "string list \<Rightarrow> string \<Rightarrow> string" where
  "Join [] sep = []"
| "Join [p] sep = p"
| "Join (p # q # ps) sep = p @ sep @ Join (q # ps) sep"

text \<open>
  Go's \<open>int\<close> is taken as the 64-bit signed integer; it is modelled by \<open>int\<close> with the
  wrap-around of \<open>--\<close> and the saturation of \<open>strconv.Atoi\<close> written out.
\<close>

definition MaxInt64 :: int where
  "MaxInt64 = 9223372036854775807"

definition MinInt64 :: int where
  "MinInt64 = - 9223372036854775808"

definition decr :: "int \<Rightarrow> int" where
  "decr n = (if n = MinInt64 then MaxInt64 else n - 1)"

definition is_digit :: "char \<Rightarrow> bool" where
  "is_digit c \<longleftrightarrow> CHR ''0'' \<le> c \<and> c \<le> CHR ''9''"

definition digit_val :: "char \<Rightarrow> int" where
  "digit_val c = of_char c - 48"

definition digit_char :: "nat \<Rightarrow> char" where
  "digit_char d = char_of (48 + d)"

text \<open>
  \<open>strconv.Atoi\<close> with its error dropped, as every caller here does: an optional sign,
  then one or more decimal digits; anything else gives 0, and a value out of range gives
  the nearest bound.
\<close>

definition Atoi :: "string \<Rightarrow> int" where
  "Atoi s =
    (let neg = (s \<noteq> [] \<and> hd s = CHR ''-'');
         ds = (if s \<noteq> [] \<and> (hd s = CHR ''+'' \<or> hd s = CHR ''-'') then tl s else s)
     in if ds = [] \<or> \<not> list_all is_digit ds then 0
        else let v = foldl (\<lambda>n c. n * 10 + digit_val c) 0 ds
             in if neg then (if v > MaxInt64 + 1 then MinInt64 else - v)
                else (if v > MaxInt64 then MaxInt64 else v))"

fun nat_digits :: "nat \<Rightarrow> string" where
  "nat_digits n =
    (if n < 10 then [digit_char n] else nat_digits (n div 10) @ [digit_char (n mod 10)])"

declare nat_digits.simps [simp del]

definition Itoa :: "int \<Rightarrow> string" where
  "Itoa n = (if n < 0 then CHR ''-'' # nat_digits (nat (- n)) else nat_digits (nat n))"

datatype panic = IndexOutOfRange | NilDereference | MustParsePanic

text \<open>
  \<open>PreviousVersion\<close> returns a string and has no error result; an index outside a slice
  is a run-time panic, the \<open>Inl\<close> branch. After the \<open>append\<close> the slice \<open>parts\<close> has at
  least two elements, so only \<open>parts[2]\<close> and \<open>maxPrev[2]\<close> can be outside; \<open>maxPrev[1]\<close>
  and \<open>maxPrev[0]\<close> are read after \<open>maxPrev[2]\<close>. The \<open>switch\<close> has the single case
  \<open>7.0\<close> and leaves \<open>mMPre\<close> empty otherwise.
\<close>

definition PreviousVersion :: "string \<Rightarrow> panic + string" where
  "PreviousVersion version =
    (if version = ''all'' then Inr version
     else if version = ''5.2'' \<or> version = ''5.2.0'' then Inr ''5.2.0''
     else
       let parts = Split version (CHR ''.'');
           parts = (if length parts < 3 then parts @ [''0''] else parts);
           maxPrev =
             (if parts ! 1 = ''0'' then
                let mMPre = (if parts ! 0 @ ''.'' @ parts ! 1 = ''7.0'' then ''5.6'' else '''')
                in Split (phpVersions_at mMPre ''max'') (CHR ''.'')
              else
                let pre = decr (Atoi (parts ! 1))
                in Split (phpVersions_at (parts ! 0 @ ''.'' @ Itoa pre) ''max'') (CHR ''.''))
       in if length parts < 3 then Inl IndexOutOfRange
          else
            let p3 = decr (Atoi (parts ! 2))
            in if p3 < 0 then
                 (if length maxPrev < 3 then Inl IndexOutOfRange
                  else
                    let parts = parts[2 := maxPrev ! 2]
                    in if parts ! 1 = ''0''
                       then Inr (Join (parts[1 := maxPrev ! 1, 0 := maxPrev ! 0]) ''.'')
                       else Inr (Join (parts[1 := Itoa (decr (Atoi (parts ! 1)))]) ''.''))
               else Inr (Join (parts[2 := Itoa p3]) ''.''))"

section \<open>Package phpcompat: breaking and warning versions\<close>

record CompatibilityRange =
  Low :: string
  High :: string
  Reported :: string
  MajorMinor :: string



text \<open>
  \<open>strings.ToLower\<close>. An ASCII capital goes to its small letter. Of the code points
  outside ASCII, Go maps two to an ASCII letter: U+0130 (bytes C4 B0) to \<open>i\<close> and U+212A
  (bytes E2 84 AA) to \<open>k\<close>. Every other byte is kept here; Go may change such bytes, but
  never into ASCII, so comparisons with an ASCII literal are as in Go.
\<close>

definition lower_byte :: "char \<Rightarrow> char" where
  "lower_byte c = (if CHR ''A'' \<le> c \<and> c \<le> CHR ''Z'' then char_of (of_char c + (32 :: nat)) else c)"

fun ToLower :: "string \<Rightarrow> string" where
  "ToLower [] = []"
| "ToLower (c # s) =
    (if c = CHR 0xC4 \<and> s \<noteq> [] \<and> hd s = CHR 0xB0 then CHR ''i'' # ToLower (tl s)
     else if c = CHR 0xE2 \<and> take 2 s = [CHR 0x84, CHR 0xAA] then CHR ''k'' # ToLower (drop 2 s)
     else lower_byte c # ToLower s)"






text \<open>
  An instance of the three parameters, for the scenarios S1 and S5 of the specification
  (a keyword that is not present in PHP 5.2 or earlier): versions are triples of numbers,
  and the one range that occurs is \<open>[5.2.0, 5.2.17]\<close>.
\<close>

definition S1_range :: CompatibilityRange where
  "S1_range = \<lparr>Low = ''5.2.0'', High = ''5.2.17'', Reported = ''5.2'', MajorMinor = ''5.2''\<rparr>"


definition S1_MustParse :: "string \<Rightarrow> (int \<times> int \<times> int) option" where
  "S1_MustParse s =
    (case Split s (CHR ''.'') of
       [a, b, c] \<Rightarrow>
         if list_all (\<lambda>p. p \<noteq> [] \<and> list_all is_digit p) [a, b, c]
         then Some (Atoi a, Atoi b, Atoi c) else None
     | _ \<Rightarrow> None)"



text \<open>
  \<open>GetVersionParts\<close>. Its result is the quadruple of low, high, major.minor and reported.
  \<open>semver.Make\<close> and the comparison \<open>LT\<close> are parameters; \<open>Make\<close> gives \<open>None\<close> for its
  error, and the version that the source reads then is the zero value of the type, the
  third parameter.
\<close>

definition GetVersionParts ::
  "(string \<Rightarrow> 'v option) \<Rightarrow> ('v \<Rightarrow> 'v \<Rightarrow> bool) \<Rightarrow> 'v \<Rightarrow> string \<Rightarrow> string
    \<Rightarrow> string \<times> string \<times> string \<times> string" where
  "GetVersionParts Make LT zero version lowIn =
    (let vParts = Split version (CHR ''.'');
         majorMinor = (if length vParts > 1 then vParts ! 0 @ ''.'' @ vParts ! 1 else ''all'');
         high = (if length vParts \<noteq> 1 \<and> length vParts \<noteq> 3
                 then phpVersions_at majorMinor ''max'' else version);
         low = (if lowIn = '''' then
                  (if majorMinor \<noteq> ''all'' then majorMinor @ ''.'' @ ''0'' else ''all'')
                else
                  (if length (Split lowIn (CHR ''.'')) = 2 then lowIn @ ''.'' @ ''0''
                   else lowIn));
         v = (case Make (majorMinor @ ''.0'') of None \<Rightarrow> zero | Some x \<Rightarrow> x);
         min = (case Make ''5.2.0'' of None \<Rightarrow> zero | Some x \<Rightarrow> x)
     in if LT v min \<and> majorMinor \<noteq> ''all'' then (''5.2.0'', ''5.2.0'', ''5.2'', version)
        else (low, high, majorMinor, version))"

text \<open>
  A message in the shape of scenario S1 that reports PHP 7.4, a version that the
  catalogue does not hold, with an instance of the parameters for it: \<open>Parse\<close> succeeds
  and fills in the range matching the type with what \<open>GetVersionParts\<close> gives for \<open>7.4\<close>,
  as the range of S1 is what it gives for \<open>5.2\<close>; versions are triples of numbers in
  their lexicographic order; \<open>ParseRange\<close> accepts the strings \<open>>=A <=B\<close> with two
  versions \<open>A\<close> and \<open>B\<close> and nothing else.
\<close>

definition version_lt :: "int \<times> int \<times> int \<Rightarrow> int \<times> int \<times> int \<Rightarrow> bool" where
  "version_lt a b =
    (case (a, b) of
       ((x, y, z), (x', y', z')) \<Rightarrow> x < x' \<or> (x = x' \<and> (y < y' \<or> (y = y' \<and> z < z'))))"

definition bounds_ParseRange :: "string \<Rightarrow> (int \<times> int \<times> int \<Rightarrow> bool) option" where
  "bounds_ParseRange s =
    (case Split s (CHR '' '') of
       [lo, hi] \<Rightarrow>
         (if take 2 lo = ''>='' \<and> take 2 hi = ''<='' then
            (case (S1_MustParse (drop 2 lo), S1_MustParse (drop 2 hi)) of
               (Some a, Some b) \<Rightarrow> Some (\<lambda>v. \<not> version_lt v a \<and> \<not> version_lt b v)
             | _ \<Rightarrow> None)
          else None)
     | _ \<Rightarrow> None)"




section \<open>Package process: validation of a message\<close>

text \<open>
  Modelled from the spec: the type \<open>message.Message\<close>, declared outside the files at
  hand, with the fields of the Job Message of the specification (title, slug, source url,
  source type, response endpoint, audits).
\<close>

record AuditRequest =
  audit_type :: string
  audit_standard :: string

record Message =
  Title :: string
  Slug :: string
  SourceURL :: string
  SourceType :: string
  ResponseAPIEndpoint :: string
  Audits :: "AuditRequest list"

text \<open>\<open>validateMessage\<close>: \<open>None\<close> is the nil error, \<open>Some\<close> holds the text of the error.\<close>

definition validateMessage :: "Message \<Rightarrow> string option" where
  "validateMessage msg =
    (if Title msg = '''' then Some ''message does not have a title''
     else if ResponseAPIEndpoint msg = '''' then Some (Title msg @ '': does not provide an endpoint'')
     else if SourceURL msg = '''' then Some (Title msg @ '': source url is empty'')
     else if SourceType msg = '''' then Some (Title msg @ '': source type is empty (e.g. zip, git)'')
     else None)"

section \<open>SHA-256, hexadecimal and base64 encoding\<close>

text \<open>
  \<open>crypto/sha256\<close> after FIPS 180-4, on 32-bit words held in \<open>int\<close> with the reduction
  modulo \<open>2^32\<close> written out; a byte is a \<open>char\<close>. The round constants \<open>K256\<close> are the
  first 32 bits of the fractional parts of the cube roots of the first 64 primes, the
  initial state \<open>H256\<close> those of the square roots of the first 8 primes. \<open>Sum256\<close> gives the 32 bytes of the
  digest, \<open>hex\<close> is the format \<open>%x\<close> of a byte sequence, and \<open>EncodeToString\<close> is
  \<open>base64.URLEncoding.EncodeToString\<close>, with padding.
\<close>

definition K256 :: "int list" where
  "K256 =
    [1116352408, 1899447441, 3049323471, 3921009573, 961987163, 1508970993, 2453635748, 2870763221,
     3624381080, 310598401, 607225278, 1426881987, 1925078388, 2162078206, 2614888103, 3248222580,
     3835390401, 4022224774, 264347078, 604807628, 770255983, 1249150122, 1555081692, 1996064986,
     2554220882, 2821834349, 2952996808, 3210313671, 3336571891, 3584528711, 113926993, 338241895,
     666307205, 773529912, 1294757372, 1396182291, 1695183700, 1986661051, 2177026350, 2456956037,
     2730485921, 2820302411, 3259730800, 3345764771, 3516065817, 3600352804, 4094571909, 275423344,
     430227734, 506948616, 659060556, 883997877, 958139571, 1322822218, 1537002063, 1747873779,
     1955562222, 2024104815, 2227730452, 2361852424, 2428436474, 2756734187, 3204031479, 3329325298]"

type_synonym sha_state = "int \<times> int \<times> int \<times> int \<times> int \<times> int \<times> int \<times> int"

definition H256 :: sha_state where
  "H256 = (1779033703, 3144134277, 1013904242, 2773480762,
           1359893119, 2600822924, 528734635, 1541459225)"

definition add32 :: "int \<Rightarrow> int \<Rightarrow> int" where
  "add32 x y = (x + y) mod 4294967296"

definition rotr :: "nat \<Rightarrow> int \<Rightarrow> int" where
  "rotr n x = x div 2 ^ n + (x mod 2 ^ n) * 2 ^ (32 - n)"

definition Ch :: "int \<Rightarrow> int \<Rightarrow> int \<Rightarrow> int" where
  "Ch x y z = (x AND y) XOR ((4294967295 - x) AND z)"

definition Maj :: "int \<Rightarrow> int \<Rightarrow> int \<Rightarrow> int" where
  "Maj x y z = (x AND y) XOR (x AND z) XOR (y AND z)"

definition Sigma0 :: "int \<Rightarrow> int" where
  "Sigma0 x = rotr 2 x XOR rotr 13 x XOR rotr 22 x"

definition Sigma1 :: "int \<Rightarrow> int" where
  "Sigma1 x = rotr 6 x XOR rotr 11 x XOR rotr 25 x"

definition sigma0 :: "int \<Rightarrow> int" where
  "sigma0 x = rotr 7 x XOR rotr 18 x XOR x div 2 ^ 3"

definition sigma1 :: "int \<Rightarrow> int" where
  "sigma1 x = rotr 17 x XOR rotr 19 x XOR x div 2 ^ 10"

definition sha_pad :: "string \<Rightarrow> string" where
  "sha_pad m =
    m @ [char_of (128 :: int)] @ replicate ((119 - length m mod 64) mod 64) (char_of (0 :: int))
      @ map (\<lambda>i. char_of ((8 * int (length m)) div 256 ^ (7 - i))) [0 ..< 8]"

definition be32 :: "string \<Rightarrow> int" where
  "be32 bs = foldl (\<lambda>w c. w * 256 + of_char c) 0 bs"

text \<open>The message schedule: each further word comes from the sixteen words before it.\<close>

fun schedule_next :: "int list \<Rightarrow> int" where
  "schedule_next (w0 # w1 # w2 # w3 # w4 # w5 # w6 # w7 # w8 # w9 # w10 # w11 # w12 # w13 # w14 # ws) =
    add32 (add32 (add32 (sigma1 w14) w9) (sigma0 w1)) w0"
| "schedule_next ws = 0"

fun extend :: "nat \<Rightarrow> int list \<Rightarrow> int list" where
  "extend 0 window = []"
| "extend (Suc k) window =
    (let w = schedule_next window in w # extend k (tl window @ [w]))"

definition schedule :: "string \<Rightarrow> int list" where
  "schedule block =
    (let first = map (\<lambda>i. be32 (take 4 (drop (4 * i) block))) [0 ..< 16]
     in first @ extend 48 first)"

fun sha_round :: "sha_state \<Rightarrow> int \<times> int \<Rightarrow> sha_state" where
  "sha_round (a, b, c, d, e, f, g, h) (k, w) =
    (let T1 = add32 (add32 (add32 (add32 h (Sigma1 e)) (Ch e f g)) k) w;
         T2 = add32 (Sigma0 a) (Maj a b c)
     in (add32 T1 T2, a, b, c, add32 d T1, e, f, g))"

fun add_state :: "sha_state \<Rightarrow> sha_state \<Rightarrow> sha_state" where
  "add_state (a, b, c, d, e, f, g, h) (a', b', c', d', e', f', g', h') =
    (add32 a a', add32 b b', add32 c c', add32 d d', add32 e e', add32 f f', add32 g g',
     add32 h h')"

definition compress :: "sha_state \<Rightarrow> string \<Rightarrow> sha_state" where
  "compress s block = add_state s (foldl sha_round s (zip K256 (schedule block)))"

definition word_bytes :: "int \<Rightarrow> string" where
  "word_bytes w = map (\<lambda>i. char_of (w div 256 ^ (3 - i))) [0 ..< 4]"

fun state_bytes :: "sha_state \<Rightarrow> string" where
  "state_bytes (a, b, c, d, e, f, g, h) = concat (map word_bytes [a, b, c, d, e, f, g, h])"

definition Sum256 :: "string \<Rightarrow> string" where
  "Sum256 m =
    (let p = sha_pad m
     in state_bytes
          (foldl compress H256 (map (\<lambda>i. take 64 (drop (64 * i) p)) [0 ..< length p div 64])))"

definition hex_digit :: "nat \<Rightarrow> char" where
  "hex_digit n = ''0123456789abcdef'' ! n"

definition hex :: "string \<Rightarrow> string" where
  "hex bs = concat (map (\<lambda>c. [hex_digit (of_char c div 16), hex_digit (of_char c mod 16)]) bs)"

definition b64_char :: "int \<Rightarrow> char" where
  "b64_char n =
    ''ABCDEFGHIJKLMNOPQRSTUVWXYZabcdefghijklmnopqrstuvwxyz0123456789-_'' ! nat (n mod 64)"

fun EncodeToString :: "string \<Rightarrow> string" where
  "EncodeToString [] = []"
| "EncodeToString [a] =
    (let n = of_char a * 65536
     in [b64_char (n div 262144), b64_char (n div 4096), CHR ''='', CHR ''=''])"
| "EncodeToString [a, b] =
    (let n = of_char a * 65536 + of_char b * 256
     in [b64_char (n div 262144), b64_char (n div 4096), b64_char (n div 64), CHR ''=''])"
| "EncodeToString (a # b # c # rest) =
    (let n = of_char a * 65536 + of_char b * 256 + of_char c
     in [b64_char (n div 262144), b64_char (n div 4096), b64_char (n div 64), b64_char n]
        @ EncodeToString rest)"

section \<open>Package zip: download, extraction and checksum\<close>

text \<open>
  A Go slice is \<open>None\<close> when nil and \<open>Some\<close> of its elements otherwise; \<open>append\<close> to the
  nil slice gives a slice that is not nil.
\<close>

definition append1 :: "'a list option \<Rightarrow> 'a \<Rightarrow> 'a list option" where
  "append1 s x = Some ((case s of None \<Rightarrow> [] | Some xs \<Rightarrow> xs) @ [x])"

text \<open>
  \<open>json.Marshal\<close> of a slice of strings: \<open>null\<close> for the nil slice, otherwise the
  elements quoted, separated by commas, in brackets. In a string the quote and the
  backslash are escaped with a backslash, line feed, carriage return and tab are
  \<open>\n\<close>, \<open>\r\<close> and \<open>\t\<close>, every other byte below 32 and the three bytes \<open><\<close>, \<open>>\<close> and \<open>&\<close>
  are \<open>\u00XX\<close>. Bytes from 128 on are copied, which is what Go does for valid UTF-8
  other than U+2028 and U+2029; the digests that are marshalled here are hexadecimal.
\<close>

definition json_escape :: "char \<Rightarrow> string" where
  "json_escape c =
    (if c = CHR 0x22 then [CHR 0x5C, CHR 0x22]
     else if c = CHR 0x5C then [CHR 0x5C, CHR 0x5C]
     else if c = CHR 0x0A then [CHR 0x5C, CHR ''n'']
     else if c = CHR 0x0D then [CHR 0x5C, CHR ''r'']
     else if c = CHR 0x09 then [CHR 0x5C, CHR ''t'']
     else if (of_char c :: nat) < 32 \<or> c = CHR ''<'' \<or> c = CHR ''>'' \<or> c = CHR ''&''
       then [CHR 0x5C, CHR ''u'', CHR ''0'', CHR ''0'',
             hex_digit (of_char c div 16), hex_digit (of_char c mod 16)]
     else [c])"

definition json_string :: "string \<Rightarrow> string" where
  "json_string s = [CHR 0x22] @ concat (map json_escape s) @ [CHR 0x22]"

definition json_Marshal :: "string list option \<Rightarrow> string" where
  "json_Marshal v =
    (case v of
       None \<Rightarrow> ''null''
     | Some xs \<Rightarrow> ''['' @ Join (map json_string xs) '','' @ '']'')"

text \<open>\<open>combinedChecksum\<close>: \<open>sort.Strings\<close> leaves the nil slice nil.\<close>

definition combinedChecksum :: "string list option \<Rightarrow> string" where
  "combinedChecksum sums = hex (Sum256 (json_Marshal (map_option sort sums)))"

text \<open>
  The checksum in the words of the specification: the digests sorted ascending, written as
  a compact JSON array (each digest in quotes, separated by commas, in brackets), hashed
  with SHA-256 and written in hexadecimal. A digest is 64 hexadecimal digits.
\<close>

definition spec_json_array :: "string list \<Rightarrow> string" where
  "spec_json_array ds = ''['' @ Join (map (\<lambda>d. [CHR 0x22] @ d @ [CHR 0x22]) ds) '','' @ '']''"

definition spec_checksum :: "string list \<Rightarrow> string" where
  "spec_checksum ds = hex (Sum256 (spec_json_array (sort ds)))"

definition is_hex_digest :: "string \<Rightarrow> bool" where
  "is_hex_digest d \<longleftrightarrow> length d = 64 \<and> list_all (\<lambda>c. c \<in> set ''0123456789abcdef'') d"

definition digest_X :: string where
  "digest_X = ''4b68ab3847feda7d6c62c1fbcbeebfa35eab7351ed5e78f4ddadea5df64b8015''"

definition digest_Y :: string where
  "digest_Y = ''18f5384d58bcb1bba0bcd9e6a6781d1a6ac2cc280c330ecbab6cb7931b721552''"

text \<open>
  \<open>strings.TrimPrefix\<close>, and \<open>filepath.Join\<close> with \<open>filepath.Clean\<close> for the separator
  \<open>/\<close>: empty elements and \<open>.\<close> are dropped, \<open>..\<close> removes the element before it, is
  dropped at the root and is kept at the start of a path that is not rooted; the empty
  result is \<open>.\<close>. \<open>filepath_Join\<close> joins from the first element that is not empty, and
  gives the empty string when there is none.
\<close>

definition TrimPrefix :: "string \<Rightarrow> string \<Rightarrow> string" where
  "TrimPrefix s prefix = (if take (length prefix) s = prefix then drop (length prefix) s else s)"

definition clean_step :: "bool \<Rightarrow> string list \<Rightarrow> string \<Rightarrow> string list" where
  "clean_step rooted stack e =
    (if e = ''..'' then
       (if stack \<noteq> [] \<and> last stack \<noteq> ''..'' then butlast stack
        else if rooted then stack else stack @ [''..''])
     else stack @ [e])"

definition Clean :: "string \<Rightarrow> string" where
  "Clean path =
    (if path = '''' then ''.''
     else
       let rooted = (hd path = CHR ''/'');
           elems = filter (\<lambda>e. e \<noteq> '''' \<and> e \<noteq> ''.'') (Split path (CHR ''/''));
           out = (if rooted then ''/'' else '''') @ Join (foldl (clean_step rooted) [] elems) ''/''
       in if out = '''' then ''.'' else out)"

fun filepath_Join :: "string list \<Rightarrow> string" where
  "filepath_Join [] = ''''"
| "filepath_Join (e # elem) = (if e \<noteq> '''' then Clean (Join (e # elem) ''/'') else filepath_Join elem)"

text \<open>
  An entry of the archive, as \<open>zip.OpenReader\<close> presents it: its name, whether its
  \<open>FileInfo\<close> is a directory, its permission bits and its uncompressed contents.
\<close>

record zip_file =
  Name :: string
  IsDir :: bool
  Mode :: nat
  Data :: string

text \<open>
  The file system. The package reaches it through the variables \<open>createFile\<close>,
  \<open>makeDirectoryAll\<close>, \<open>ioCopy\<close> and \<open>openFile\<close> and through \<open>http.Get\<close> and
  \<open>zip.OpenReader\<close>; they are the fields of \<open>sys\<close>, each giving the error of the call
  (\<open>None\<close> for nil). What a call that succeeds does is written into the state \<open>fs\<close>:
  the directories made and the contents of the files written. \<open>ioCopy\<close> writes into the
  hash or into an open file; a copy that succeeds has copied all of its source.
\<close>

datatype writer = Hash | File string

record sys =
  createFile :: "string \<Rightarrow> string option"
  makeDirectoryAll :: "string \<Rightarrow> nat \<Rightarrow> string option"
  ioCopy :: "writer \<Rightarrow> string \<Rightarrow> string option"
  openFile :: "string \<Rightarrow> nat \<Rightarrow> string option"
  httpGet :: "string \<Rightarrow> string + string"
  OpenReader :: "string \<Rightarrow> string + zip_file list"

record fs =
  fs_dirs :: "string list"
  fs_files :: "(string \<times> string) list"

definition write_file :: "string \<Rightarrow> string \<Rightarrow> fs \<Rightarrow> fs" where
  "write_file path contents s = s\<lparr>fs_files := (path, contents) # filter (\<lambda>(p, c). p \<noteq> path) (fs_files s)\<rparr>"

definition make_dir :: "string \<Rightarrow> fs \<Rightarrow> fs" where
  "make_dir path s = (if path \<in> set (fs_dirs s) then s else s\<lparr>fs_dirs := fs_dirs s @ [path]\<rparr>)"

definition sourceFilename :: string where
  "sourceFilename = ''source.zip''"

definition downloadFile :: "sys \<Rightarrow> string \<Rightarrow> string \<Rightarrow> fs \<Rightarrow> string option \<times> fs" where
  "downloadFile os source destination s =
    (case createFile os destination of
       Some err \<Rightarrow> (Some err, s)
     | None \<Rightarrow>
        let s = write_file destination '''' s
        in (case httpGet os source of
              Inl err \<Rightarrow> (Some err, s)
            | Inr body \<Rightarrow>
               (case ioCopy os (File destination) body of
                  Some err \<Rightarrow> (Some err, s)
                | None \<Rightarrow> (None, write_file destination body s))))"

text \<open>The first loop of \<open>unzip\<close>: the root path.\<close>

fun rootPath_loop :: "zip_file list \<Rightarrow> string \<Rightarrow> string" where
  "rootPath_loop [] rootPath = rootPath"
| "rootPath_loop (file # rest) rootPath =
    (let path = Name file
     in if \<not> IsDir file then rootPath_loop rest rootPath
        else if length path < length rootPath \<or> rootPath = '''' then rootPath_loop rest path
        else rootPath_loop rest rootPath)"

text \<open>
  The second loop of \<open>unzip\<close>. The result is the triple of the file names, the
  checksums and the error; every return on an error gives nil for both slices. The error of
  \<open>makeDirectoryAll\<close> for a directory entry is dropped.
\<close>

fun unzip_loop ::
  "sys \<Rightarrow> string \<Rightarrow> string \<Rightarrow> zip_file list \<Rightarrow> string list option \<Rightarrow> string list option \<Rightarrow> fs
    \<Rightarrow> (string list option \<times> string list option \<times> string option) \<times> fs" where
  "unzip_loop os destination rootPath [] filenames checksums s = ((filenames, checksums, None), s)"
| "unzip_loop os destination rootPath (file # rest) filenames checksums s =
    (let path = filepath_Join [destination, TrimPrefix (Name file) rootPath]
     in if IsDir file then
          unzip_loop os destination rootPath rest filenames checksums
            (case makeDirectoryAll os path (Mode file) of Some err \<Rightarrow> s | None \<Rightarrow> make_dir path s)
        else
          let filenames = append1 filenames path
          in (case ioCopy os Hash (Data file) of
                Some err \<Rightarrow> ((None, None, Some err), s)
              | None \<Rightarrow>
                 let checksums = append1 checksums (hex (Sum256 (Data file)))
                 in (case openFile os path (Mode file) of
                       Some err \<Rightarrow> ((None, None, Some err), s)
                     | None \<Rightarrow>
                        let s = write_file path '''' s
                        in (case ioCopy os (File path) (Data file) of
                              Some err \<Rightarrow> ((None, None, Some err), s)
                            | None \<Rightarrow>
                               unzip_loop os destination rootPath rest filenames checksums
                                 (write_file path (Data file) s)))))"

definition unzip ::
  "sys \<Rightarrow> string \<Rightarrow> string \<Rightarrow> fs
    \<Rightarrow> (string list option \<times> string list option \<times> string option) \<times> fs" where
  "unzip os source destination s =
    (case OpenReader os source of
       Inl err \<Rightarrow> ((None, None, Some err), s)
     | Inr reader \<Rightarrow>
        (case makeDirectoryAll os destination 493 of
           Some err \<Rightarrow> ((None, None, Some err), s)
         | None \<Rightarrow>
            unzip_loop os destination (rootPath_loop reader '''') reader None None
              (make_dir destination s)))"

record Zip =
  url :: string
  dest :: string
  files :: "string list option"
  checksum :: string

definition NewZip :: "string \<Rightarrow> Zip" where
  "NewZip u = \<lparr>url = u, dest = '''', files = None, checksum = ''''\<rparr>"

text \<open>
  \<open>PrepareFiles\<close>: the result of \<open>os.Mkdir\<close> is dropped; \<open>m.files\<close> is assigned also when
  \<open>unzip\<close> fails.
\<close>

definition PrepareFiles :: "sys \<Rightarrow> Zip \<Rightarrow> string \<Rightarrow> fs \<Rightarrow> string option \<times> Zip \<times> fs" where
  "PrepareFiles os m d s =
    (let m = m\<lparr>dest := d\<rparr>;
         s = make_dir d s
     in (case downloadFile os (url m) (dest m @ ''/'' @ sourceFilename) s of
           (Some err, s) \<Rightarrow> (Some err, m, s)
         | (None, s) \<Rightarrow>
            (case unzip os (dest m @ ''/'' @ sourceFilename) (dest m @ ''/unzipped'') s of
               ((filenames, checksums, err), s) \<Rightarrow>
                 let m = m\<lparr>files := filenames\<rparr>
                 in (case err of
                       Some e \<Rightarrow> (Some e, m, s)
                     | None \<Rightarrow> (None, m\<lparr>checksum := combinedChecksum checksums\<rparr>, s)))))"

definition GetChecksum :: "Zip \<Rightarrow> string" where
  "GetChecksum m = checksum m"

definition GetFiles :: "Zip \<Rightarrow> string list option" where
  "GetFiles m = files m"

section \<open>Package process: the ingest stage\<close>

text \<open>
  Modelled from the spec: the embedded \<open>Process\<close> with its message, result map and files
  path, and its method \<open>Error\<close>, declared outside the files at hand. The result map holds
  strings and slices of strings; \<open>ProcessError\<close> is the error that \<open>ig.Error\<close> makes from
  a text, \<open>SourceError\<close> an error of the source manager, \<open>InvalidMessage\<close> an error of
  \<open>validateMessage\<close>. The source manager is the zip manager or nil.
\<close>

datatype result_value = StringValue string | StringsValue "string list option"

datatype ingest_error = ProcessError string | SourceError string | InvalidMessage string

record Ingest =
  Message :: Message
  Result :: "string \<rightharpoonup> result_value"
  FilesPath :: string
  TempFolder :: string
  sourceManager :: "Zip option"

text \<open>
  \<open>Do\<close>. \<open>source.GetKind\<close> is declared outside the files at hand and is a parameter.
  The \<open>switch\<close> has the single case \<open>zip\<close>; otherwise the source manager keeps its
  former value.
\<close>

definition Do ::
  "sys \<Rightarrow> (string \<Rightarrow> string) \<Rightarrow> Ingest \<Rightarrow> fs \<Rightarrow> ingest_error option \<times> Ingest \<times> fs" where
  "Do os GetKind ig s =
    (let ig = (if GetKind (SourceURL (Message ig)) = ''zip''
               then ig\<lparr>sourceManager := Some (NewZip (SourceURL (Message ig)))\<rparr> else ig)
     in (case sourceManager ig of
           None \<Rightarrow>
             (Some (ProcessError ''could not get appropriate source manager to handle ingest''), ig, s)
         | Some m \<Rightarrow>
            let ig = ig\<lparr>FilesPath :=
                       TempFolder ig @ ''/audit-'' @ EncodeToString (Sum256 (SourceURL (Message ig)))\<rparr>
            in (case PrepareFiles os m (FilesPath ig) s of
                  (err, m, s) \<Rightarrow>
                    let ig = ig\<lparr>sourceManager := Some m\<rparr>
                    in (case err of
                          Some e \<Rightarrow> (Some (SourceError e), ig, s)
                        | None \<Rightarrow>
                           let checksum = GetChecksum m
                           in if checksum = '''' then
                                (Some (ProcessError ''could not calculate project checksum''), ig, s)
                              else
                                (None,
                                 ig\<lparr>Result := (Result ig)
                                   (''checksum'' \<mapsto> StringValue checksum,
                                    ''files'' \<mapsto> StringsValue (GetFiles m),
                                    ''filesPath'' \<mapsto> StringValue (FilesPath ig))\<rparr>,
                                 s)))))"

text \<open>
  One turn of the loop of \<open>Run\<close> for a message taken from the channel \<open>In\<close>: the result
  map is made anew; the first component of the result is what is sent on the error
  channel, the second what is sent on \<open>Out\<close>.
\<close>

definition Run_message ::
  "sys \<Rightarrow> (string \<Rightarrow> string) \<Rightarrow> Ingest \<Rightarrow> Message \<Rightarrow> fs
    \<Rightarrow> ingest_error option \<times> Ingest option \<times> Ingest \<times> fs" where
  "Run_message os GetKind ig msg s =
    (let ig = ig\<lparr>Result := Map.empty\<rparr>
     in (case validateMessage msg of
           Some err \<Rightarrow> (Some (InvalidMessage err), None, ig, s)
         | None \<Rightarrow>
            (case Do os GetKind (ig\<lparr>Message := msg\<rparr>) s of
               (Some err, ig, s) \<Rightarrow> (Some err, None, ig, s)
             | (None, ig, s) \<Rightarrow> (None, Some ig, ig, s))))"

text \<open>
  A file system in which every call succeeds, with an archive of choice behind
  \<open>zip.OpenReader\<close>, and the kind of source that is \<open>zip\<close> for every address.
\<close>

definition good_sys :: "zip_file list \<Rightarrow> sys" where
  "good_sys archive =
    \<lparr>createFile = (\<lambda>p. None), makeDirectoryAll = (\<lambda>p m. None), ioCopy = (\<lambda>w d. None),
     openFile = (\<lambda>p m. None), httpGet = (\<lambda>u. Inr ''PK''), OpenReader = (\<lambda>p. Inr archive)\<rparr>"

definition empty_fs :: fs where
  "empty_fs = \<lparr>fs_dirs = [], fs_files = []\<rparr>"

definition zip_kind :: "string \<Rightarrow> string" where
  "zip_kind u = ''zip''"

text \<open>
  A message with every field that \<open>validateMessage\<close> reads filled in, and with an empty
  slug and no audits; an ingest stage that has received nothing yet; and an archive with
  two top-level directories.
\<close>

definition example_message :: Message where
  "example_message =
    \<lparr>Title = ''plugin'', Slug = '''', SourceURL = ''http://x/a.zip'', SourceType = ''zip'',
     ResponseAPIEndpoint = ''http://x/api'', Audits = []\<rparr>"

definition example_ingest :: Ingest where
  "example_ingest =
    \<lparr>Message = example_message, Result = Map.empty, FilesPath = '''', TempFolder = ''/tmp'',
     sourceManager = None\<rparr>"

definition example_archive :: "zip_file list" where
  "example_archive =
    [\<lparr>Name = ''a/'', IsDir = True, Mode = 493, Data = ''''\<rparr>,
     \<lparr>Name = ''a/x'', IsDir = False, Mode = 420, Data = ''X''\<rparr>,
     \<lparr>Name = ''bb/'', IsDir = True, Mode = 493, Data = ''''\<rparr>,
     \<lparr>Name = ''bb/y'', IsDir = False, Mode = 420, Data = ''Y''\<rparr>]"

section \<open>Properties of the set operations\<close>

lemma contains_iff: "contains slice v \<longleftrightarrow> v \<in> set slice"
  by (induction slice) auto

lemma foldl_append_keys: "foldl (\<lambda>versions key. versions @ [key]) acc keys = acc @ keys"
  by (induction keys arbitrary: acc) simp_all

lemma PhpMajorVersions_from_sort: "PhpMajorVersions_from keys = sort keys"
  by (simp add: PhpMajorVersions_from_def foldl_append_keys)

lemma PhpMajorVersions_value:
  "PhpMajorVersions = [''5.2'', ''5.3'', ''5.4'', ''5.5'', ''5.6'', ''7.0'', ''7.1'', ''7.2'', ''7.3'']"
  by (simp add: PhpMajorVersions_def PhpMajorVersions_from_sort phpVersions_def)

lemma PhpMajorVersions_any_order:
  assumes "mset keys = mset (map fst phpVersions)"
  shows "PhpMajorVersions_from keys = PhpMajorVersions"
  unfolding PhpMajorVersions_def PhpMajorVersions_from_sort
  by (rule properties_for_sort) (simp_all add: assms)

lemma merge_slice_set: "set (foldl merge_value merged slice) = set merged \<union> set slice"
  by (induction slice arbitrary: merged) (auto simp: merge_value_def contains_iff)

lemma merge_slice_distinct: "distinct merged \<Longrightarrow> distinct (foldl merge_value merged slice)"
  by (induction slice arbitrary: merged) (auto simp: merge_value_def contains_iff)

lemma merge_all_set:
  "set (foldl (\<lambda>merged slice. foldl merge_value merged slice) acc n) = set acc \<union> \<Union> (set ` set n)"
  by (induction n arbitrary: acc) (auto simp: merge_slice_set)

lemma merge_all_distinct:
  "distinct acc \<Longrightarrow> distinct (foldl (\<lambda>merged slice. foldl merge_value merged slice) acc n)"
  by (induction n arbitrary: acc) (auto simp: merge_slice_distinct)

lemma MergeVersions_set: "set (MergeVersions n) = \<Union> (set ` set n)"
  by (simp add: MergeVersions_def merge_all_set)

lemma MergeVersions_distinct: "distinct (MergeVersions n)"
  by (simp add: MergeVersions_def merge_all_distinct)

lemma remdups_snoc: "remdups (ys @ [x]) = filter (\<lambda>y. y \<noteq> x) (remdups ys) @ [x]"
  by (induction ys) auto

lemma first_occurrences_Cons:
  "rev (remdups (rev (x # xs))) = x # filter (\<lambda>y. y \<noteq> x) (rev (remdups (rev xs)))"
  by (simp add: remdups_snoc rev_filter)

lemma merge_slice_order:
  "foldl merge_value merged slice
    = merged @ filter (\<lambda>v. v \<notin> set merged) (rev (remdups (rev slice)))"
proof (induction slice arbitrary: merged)
  case Nil
  then show ?case by simp
next
  case (Cons x slice)
  show ?case
  proof (cases "x \<in> set merged")
    case True
    then have "filter (\<lambda>v. v \<notin> set merged) (filter (\<lambda>y. y \<noteq> x) (rev (remdups (rev slice))))
        = filter (\<lambda>v. v \<notin> set merged) (rev (remdups (rev slice)))"
      by (auto intro: filter_cong)
    with True Cons.IH [of merged] show ?thesis
      by (simp add: first_occurrences_Cons merge_value_def contains_iff del: rev.simps)
  next
    case False
    have "filter (\<lambda>v. v \<notin> set (merged @ [x])) (rev (remdups (rev slice)))
        = filter (\<lambda>v. v \<notin> set merged) (filter (\<lambda>y. y \<noteq> x) (rev (remdups (rev slice))))"
      by (auto intro: filter_cong)
    with False Cons.IH [of "merged @ [x]"] show ?thesis
      by (simp add: first_occurrences_Cons merge_value_def contains_iff del: rev.simps)
  qed
qed

lemma merge_all_concat:
  "foldl (\<lambda>merged slice. foldl merge_value merged slice) acc n = foldl merge_value acc (concat n)"
  by (induction n arbitrary: acc) simp_all

lemma MergeVersions_order: "MergeVersions n = rev (remdups (rev (concat n)))"
  unfolding MergeVersions_def merge_all_concat by (simp add: merge_slice_order)

lemma exclude_loop_set:
  "set (foldl (exclude_value exclude) included versions) = set included \<union> (set versions - set exclude)"
  by (induction versions arbitrary: included) (auto simp: exclude_value_def contains_iff)

lemma exclude_loop_distinct:
  "distinct included \<Longrightarrow> distinct (foldl (exclude_value exclude) included versions)"
  by (induction versions arbitrary: included) (auto simp: exclude_value_def contains_iff)

lemma ExcludeVersions_set: "set (ExcludeVersions versions exclude) = set versions - set exclude"
  by (simp add: ExcludeVersions_def exclude_loop_set)

lemma ExcludeVersions_distinct: "distinct (ExcludeVersions versions exclude)"
  by (simp add: ExcludeVersions_def exclude_loop_distinct)

lemma ExcludeVersions_sorted: "sorted (ExcludeVersions versions exclude)"
  by (simp add: ExcludeVersions_def)

section \<open>Claims about the set operations\<close>

text \<open>
  C1, as stated, at two sorted duplicate-free inputs: \<open>MergeVersions\<close> appends in the
  order of first occurrence and never sorts, so its output need not ascend.
\<close>

theorem C1_merge_not_ascending:
  "\<not> sorted_wrt (<) (MergeVersions [[''5.3''], [''5.2'']])"
  by (simp add: MergeVersions_def merge_value_def)

text \<open>
  C1, amended: for every tuple of input lists the output of \<open>MergeVersions\<close> holds
  exactly the elements of the inputs, each once, in the order of their first occurrence in
  the inputs read one after the other (\<open>remdups\<close> keeps the last occurrence of a value,
  so between the two reversals it keeps the first); it is not sorted. For every pair of
  input lists the output of \<open>ExcludeVersions\<close> is strictly ascending, hence without
  duplicates.
\<close>

theorem C1_merge_distinct_exclude_strictly_ascending:
  "MergeVersions n = rev (remdups (rev (concat n)))
   \<and> distinct (MergeVersions n) \<and> set (MergeVersions n) = \<Union> (set ` set n)
   \<and> sorted_wrt (<) (ExcludeVersions versions exclude)
   \<and> distinct (ExcludeVersions versions exclude)"
  by (simp add: MergeVersions_order [symmetric] MergeVersions_distinct MergeVersions_set
      ExcludeVersions_distinct ExcludeVersions_sorted strict_sorted_iff)

text \<open>
  C2, as stated, for the audit with \<open>breaks = [5.3]\<close> and no warnings: the merged list
  starts with \<open>5.3\<close>, the catalogue keys with \<open>5.2\<close>.
\<close>

theorem C2_coverage_not_equal_as_list:
  "MergeVersions [[''5.3''], [],
     ExcludeVersions PhpMajorVersions (MergeVersions [[''5.3''], []])] \<noteq> PhpMajorVersions"
  by (simp add: PhpMajorVersions_value MergeVersions_def merge_value_def ExcludeVersions_def
      exclude_value_def)

text \<open>
  C2, amended: for lists \<open>breaks\<close> and \<open>warns\<close> of catalogue minors, with
  \<open>compatible = ExcludeVersions PhpMajorVersions (MergeVersions [breaks, warns])\<close>, the
  list \<open>MergeVersions [breaks, warns, compatible]\<close> holds every catalogue minor exactly
  once, so that sorting it gives \<open>PhpMajorVersions\<close>.
\<close>

theorem C2_coverage_up_to_order:
  assumes "set breaks \<subseteq> set PhpMajorVersions" and "set warns \<subseteq> set PhpMajorVersions"
  shows "distinct (MergeVersions [breaks, warns,
            ExcludeVersions PhpMajorVersions (MergeVersions [breaks, warns])])
    \<and> set (MergeVersions [breaks, warns,
            ExcludeVersions PhpMajorVersions (MergeVersions [breaks, warns])])
        = set PhpMajorVersions
    \<and> sort (MergeVersions [breaks, warns,
            ExcludeVersions PhpMajorVersions (MergeVersions [breaks, warns])])
        = PhpMajorVersions"
proof -
  let ?m = "MergeVersions [breaks, warns,
              ExcludeVersions PhpMajorVersions (MergeVersions [breaks, warns])]"
  have d: "distinct ?m"
    by (rule MergeVersions_distinct)
  have s: "set ?m = set PhpMajorVersions"
    using assms by (auto simp: MergeVersions_set ExcludeVersions_set)
  have "sorted PhpMajorVersions" and "distinct PhpMajorVersions"
    by (simp_all add: PhpMajorVersions_value)
  then have "sort ?m = PhpMajorVersions"
    using d s by (intro sorted_distinct_set_unique) simp_all
  with d s show ?thesis by simp
qed

theorem C2_coverage_up_to_order_witness:
  "set [''5.3''] \<subseteq> set PhpMajorVersions \<and> set [] \<subseteq> set PhpMajorVersions
   \<and> sort (MergeVersions [[''5.3''], [],
            ExcludeVersions PhpMajorVersions (MergeVersions [[''5.3''], []])])
        = PhpMajorVersions"
proof -
  have b: "set [''5.3''] \<subseteq> set PhpMajorVersions"
    by (simp add: PhpMajorVersions_value)
  have w: "set ([] :: string list) \<subseteq> set PhpMajorVersions"
    by simp
  show ?thesis
    using b C2_coverage_up_to_order [OF b w] by simp
qed

section \<open>Decimal conversion and splitting\<close>

lemma digit_char_is_digit: "d < 10 \<Longrightarrow> is_digit (digit_char d)"
  by (simp add: is_digit_def digit_char_def less_eq_char_def)

lemma digit_val_digit_char: "d < 10 \<Longrightarrow> digit_val (digit_char d) = int d"
proof -
  assume d: "d < 10"
  have "(of_char (char_of (48 + d)) :: int) = int (of_char (char_of (48 + d)))"
    by (simp only: of_nat_of_char)
  with d show ?thesis
    by (simp add: digit_val_def digit_char_def)
qed

lemma is_digit_not_dot: "is_digit c \<Longrightarrow> c \<noteq> CHR ''.'' \<and> c \<noteq> CHR ''+'' \<and> c \<noteq> CHR ''-''"
  by (auto simp: is_digit_def less_eq_char_def)

lemma nat_digits_all_digit: "list_all is_digit (nat_digits n)"
proof (induction n rule: nat_digits.induct)
  case (1 n)
  show ?case
  proof (cases "n < 10")
    case True
    then show ?thesis by (simp add: nat_digits.simps [of n] digit_char_is_digit)
  next
    case False
    with 1 show ?thesis by (simp add: nat_digits.simps [of n] digit_char_is_digit)
  qed
qed

lemma nat_digits_nonempty: "nat_digits n \<noteq> []"
  by (simp add: nat_digits.simps [of n])

lemma foldl_digits_snoc:
  "foldl (\<lambda>n c. n * 10 + digit_val c) a (ds @ [d]) = foldl (\<lambda>n c. n * 10 + digit_val c) a ds * 10 + digit_val d"
  by simp

lemma nat_digits_value: "foldl (\<lambda>n c. n * 10 + digit_val c) 0 (nat_digits n) = int n"
proof (induction n rule: nat_digits.induct)
  case (1 n)
  show ?case
  proof (cases "n < 10")
    case True
    then show ?thesis by (simp add: nat_digits.simps [of n] digit_val_digit_char)
  next
    case False
    with 1 have "foldl (\<lambda>n c. n * 10 + digit_val c) 0 (nat_digits (n div 10)) = int (n div 10)"
      by simp
    with False show ?thesis
      by (simp add: nat_digits.simps [of n] digit_val_digit_char zdiv_int zmod_int)
  qed
qed

lemma nat_digits_inj: "nat_digits m = nat_digits n \<Longrightarrow> m = n"
  by (metis nat_digits_value of_nat_eq_iff)

lemma Atoi_nat_digits:
  "Atoi (nat_digits n) = (if int n > MaxInt64 then MaxInt64 else int n)"
proof -
  have "hd (nat_digits n) \<in> set (nat_digits n)"
    by (simp add: nat_digits_nonempty)
  then have "is_digit (hd (nat_digits n))"
    using nat_digits_all_digit [of n] by (simp add: list_all_iff)
  then have "hd (nat_digits n) \<noteq> CHR ''+'' \<and> hd (nat_digits n) \<noteq> CHR ''-''"
    by (simp add: is_digit_not_dot)
  then show ?thesis
    by (simp add: Atoi_def Let_def nat_digits_nonempty nat_digits_all_digit nat_digits_value)
qed

lemma Itoa_nat: "Itoa (int n) = nat_digits n"
  by (simp add: Itoa_def)

lemma Split_no_sep: "c \<notin> set s \<Longrightarrow> Split s c = [s]"
  by (induction s) auto

lemma Split_append_sep: "c \<notin> set a \<Longrightarrow> Split (a @ c # r) c = a # Split r c"
  by (induction a) auto

lemma nat_digits_no_dot: "CHR ''.'' \<notin> set (nat_digits n)"
  using nat_digits_all_digit [of n] is_digit_not_dot by (auto simp: list_all_iff)

lemma nat_digits_0: "nat_digits 0 = ''0''"
  by code_simp

lemma prev_patch:
  assumes a: "CHR ''.'' \<notin> set a" and b: "CHR ''.'' \<notin> set b"
    and z: "0 < z" and zmax: "int z \<le> MaxInt64"
  shows "PreviousVersion (a @ ''.'' @ b @ ''.'' @ nat_digits z) = Inr (a @ ''.'' @ b @ ''.'' @ nat_digits (z - 1))"
proof -
  let ?v = "a @ ''.'' @ b @ ''.'' @ nat_digits z"
  have sp: "Split ?v (CHR ''.'') = [a, b, nat_digits z]"
    using a b by (simp add: Split_append_sep Split_no_sep nat_digits_no_dot)
  have n1: "?v \<noteq> ''all''"
  proof
    assume e: "?v = ''all''"
    have "CHR ''.'' \<in> set ?v" by simp
    then have "CHR ''.'' \<in> set ''all''" unfolding e .
    then show False by simp
  qed
  have n2: "?v \<noteq> ''5.2''"
  proof
    assume "?v = ''5.2''"
    then have "Split ?v (CHR ''.'') = Split ''5.2'' (CHR ''.'')" by simp
    with sp show False by simp
  qed
  have n3: "?v \<noteq> ''5.2.0''"
  proof
    assume "?v = ''5.2.0''"
    then have "Split ?v (CHR ''.'') = Split ''5.2.0'' (CHR ''.'')" by simp
    with sp have "nat_digits z = nat_digits 0" by (simp add: nat_digits_0)
    then show False using z nat_digits_inj by blast
  qed
  have at: "decr (Atoi (nat_digits z)) = int z - 1"
    using z zmax by (simp add: Atoi_nat_digits decr_def MinInt64_def)
  have it: "Itoa (int z - 1) = nat_digits (z - 1)"
    using z by (simp add: Itoa_def nat_diff_distrib')
  show ?thesis
    using z n1 n2 n3 sp at it by (simp add: PreviousVersion_def Let_def)
qed


lemma major_minor_inj:
  assumes "nat_digits X @ ''.'' @ nat_digits Y = nat_digits x @ ''.'' @ nat_digits y"
  shows "X = x \<and> Y = y"
proof -
  from assms have "Split (nat_digits X @ ''.'' @ nat_digits Y) (CHR ''.'')
      = Split (nat_digits x @ ''.'' @ nat_digits y) (CHR ''.'')"
    by simp
  then have "nat_digits X = nat_digits x \<and> nat_digits Y = nat_digits y"
    by (simp add: Split_append_sep Split_no_sep nat_digits_no_dot)
  then show ?thesis
    by (simp add: nat_digits_inj)
qed

lemma catalogue_minor_cases:
  assumes "nat_digits X @ ''.'' @ nat_digits Y \<in> set PhpMajorVersions"
  shows "(X, Y) \<in> {(5, 2), (5, 3), (5, 4), (5, 5), (5, 6), (7, 0), (7, 1), (7, 2), (7, 3)}"
proof -
  have e: "''5.2'' = nat_digits 5 @ ''.'' @ nat_digits 2"
    "''5.3'' = nat_digits 5 @ ''.'' @ nat_digits 3"
    "''5.4'' = nat_digits 5 @ ''.'' @ nat_digits 4"
    "''5.5'' = nat_digits 5 @ ''.'' @ nat_digits 5"
    "''5.6'' = nat_digits 5 @ ''.'' @ nat_digits 6"
    "''7.0'' = nat_digits 7 @ ''.'' @ nat_digits 0"
    "''7.1'' = nat_digits 7 @ ''.'' @ nat_digits 1"
    "''7.2'' = nat_digits 7 @ ''.'' @ nat_digits 2"
    "''7.3'' = nat_digits 7 @ ''.'' @ nat_digits 3"
    by code_simp+
  have m: "(X, Y) = (x, y)"
    if "nat_digits X @ ''.'' @ nat_digits Y = nat_digits x @ ''.'' @ nat_digits y" for x y
    using major_minor_inj [OF that] by simp
  let ?v = "nat_digits X @ ''.'' @ nat_digits Y"
  from assms have "?v \<in> set [''5.2'', ''5.3'', ''5.4'', ''5.5'', ''5.6'', ''7.0'', ''7.1'', ''7.2'', ''7.3'']"
    by (simp only: PhpMajorVersions_value)
  then have "?v = ''5.2'' \<or> ?v = ''5.3'' \<or> ?v = ''5.4'' \<or> ?v = ''5.5'' \<or> ?v = ''5.6''
      \<or> ?v = ''7.0'' \<or> ?v = ''7.1'' \<or> ?v = ''7.2'' \<or> ?v = ''7.3''"
    by (simp only: list.set insert_iff empty_iff simp_thms)
  then have "(X, Y) = (5, 2) \<or> (X, Y) = (5, 3) \<or> (X, Y) = (5, 4) \<or> (X, Y) = (5, 5)
      \<or> (X, Y) = (5, 6) \<or> (X, Y) = (7, 0) \<or> (X, Y) = (7, 1) \<or> (X, Y) = (7, 2) \<or> (X, Y) = (7, 3)"
    unfolding e using m by blast
  then show ?thesis
    by (simp only: insert_iff empty_iff simp_thms)
qed

lemma prev_minor_cases:
  "PreviousVersion (Itoa (int 5) @ ''.'' @ Itoa (int 3) @ ''.'' @ Itoa 0)
     = Inr (phpVersions_at (Itoa (int 5) @ ''.'' @ Itoa (int (3 - 1))) ''max'')"
  "PreviousVersion (Itoa (int 5) @ ''.'' @ Itoa (int 4) @ ''.'' @ Itoa 0)
     = Inr (phpVersions_at (Itoa (int 5) @ ''.'' @ Itoa (int (4 - 1))) ''max'')"
  "PreviousVersion (Itoa (int 5) @ ''.'' @ Itoa (int 5) @ ''.'' @ Itoa 0)
     = Inr (phpVersions_at (Itoa (int 5) @ ''.'' @ Itoa (int (5 - 1))) ''max'')"
  "PreviousVersion (Itoa (int 5) @ ''.'' @ Itoa (int 6) @ ''.'' @ Itoa 0)
     = Inr (phpVersions_at (Itoa (int 5) @ ''.'' @ Itoa (int (6 - 1))) ''max'')"
  "PreviousVersion (Itoa (int 7) @ ''.'' @ Itoa (int 1) @ ''.'' @ Itoa 0)
     = Inr (phpVersions_at (Itoa (int 7) @ ''.'' @ Itoa (int (1 - 1))) ''max'')"
  "PreviousVersion (Itoa (int 7) @ ''.'' @ Itoa (int 2) @ ''.'' @ Itoa 0)
     = Inr (phpVersions_at (Itoa (int 7) @ ''.'' @ Itoa (int (2 - 1))) ''max'')"
  "PreviousVersion (Itoa (int 7) @ ''.'' @ Itoa (int 3) @ ''.'' @ Itoa 0)
     = Inr (phpVersions_at (Itoa (int 7) @ ''.'' @ Itoa (int (3 - 1))) ''max'')"
  by code_simp+


section \<open>Claims about the previous version\<close>

text \<open>
  C4, at the version \<open>8.0.0\<close>: no boundary is declared for \<open>8.0\<close>, \<open>maxPrev\<close> is the
  one-element split of the empty string, and reading \<open>maxPrev[2]\<close> panics; no error
  value is returned.
\<close>

theorem C4_unknown_boundary_panics:
  "PreviousVersion ''8.0.0'' = Inl IndexOutOfRange"
  by code_simp

text \<open>
  C10: the sentinel \<open>all\<close> is returned unchanged.
\<close>

theorem C10_all_passes_through:
  "PreviousVersion ''all'' = Inr ''all''"
  by (simp add: PreviousVersion_def)

text \<open>
  C3: for a catalogue minor \<open>X.Y\<close> and a patch \<open>Z\<close> within Go's \<open>int\<close>, the previous
  version of \<open>X.Y.Z\<close> is \<open>X.Y.(Z-1)\<close> when \<open>Z > 0\<close>; it is the catalogue's highest
  patch of \<open>X.(Y-1)\<close> when \<open>Z = 0\<close>, \<open>Y > 0\<close> and \<open>X.Y\<close> is not \<open>5.2\<close>; it is
  \<open>5.6.40\<close> for \<open>7.0.0\<close>; and \<open>5.2\<close> and \<open>5.2.0\<close> both give the floor \<open>5.2.0\<close>.
\<close>

theorem C3_PreviousVersion_catalogue:
  assumes cat: "Itoa (int X) @ ''.'' @ Itoa (int Y) \<in> set PhpMajorVersions"
    and zmax: "int Z \<le> MaxInt64"
  shows "(0 < Z \<longrightarrow>
           PreviousVersion (Itoa (int X) @ ''.'' @ Itoa (int Y) @ ''.'' @ Itoa (int Z))
             = Inr (Itoa (int X) @ ''.'' @ Itoa (int Y) @ ''.'' @ Itoa (int Z - 1)))
       \<and> (0 < Y \<and> (X, Y) \<noteq> (5, 2) \<longrightarrow>
           PreviousVersion (Itoa (int X) @ ''.'' @ Itoa (int Y) @ ''.'' @ Itoa 0)
             = Inr (phpVersions_at (Itoa (int X) @ ''.'' @ Itoa (int (Y - 1))) ''max''))
       \<and> PreviousVersion ''7.0.0'' = Inr ''5.6.40''
       \<and> PreviousVersion ''5.2'' = Inr ''5.2.0''
       \<and> PreviousVersion ''5.2.0'' = Inr ''5.2.0''"
proof (intro conjI impI)
  assume z: "0 < Z"
  have "PreviousVersion (nat_digits X @ ''.'' @ nat_digits Y @ ''.'' @ nat_digits Z)
      = Inr (nat_digits X @ ''.'' @ nat_digits Y @ ''.'' @ nat_digits (Z - 1))"
    using z zmax by (intro prev_patch nat_digits_no_dot)
  moreover have "Itoa (int Z - 1) = nat_digits (Z - 1)"
    using z by (simp add: Itoa_def nat_diff_distrib')
  ultimately show "PreviousVersion (Itoa (int X) @ ''.'' @ Itoa (int Y) @ ''.'' @ Itoa (int Z))
      = Inr (Itoa (int X) @ ''.'' @ Itoa (int Y) @ ''.'' @ Itoa (int Z - 1))"
    by (simp add: Itoa_nat)
next
  assume y: "0 < Y \<and> (X, Y) \<noteq> (5, 2)"
  from cat have "(X, Y) \<in> {(5, 2), (5, 3), (5, 4), (5, 5), (5, 6), (7, 0), (7, 1), (7, 2), (7, 3)}"
    by (intro catalogue_minor_cases) (simp add: Itoa_nat)
  with y have "(X, Y) \<in> {(5, 3), (5, 4), (5, 5), (5, 6), (7, 1), (7, 2), (7, 3)}"
    by auto
  then show "PreviousVersion (Itoa (int X) @ ''.'' @ Itoa (int Y) @ ''.'' @ Itoa 0)
      = Inr (phpVersions_at (Itoa (int X) @ ''.'' @ Itoa (int (Y - 1))) ''max'')"
    using prev_minor_cases by (elim insertE emptyE) (simp_all only: prod.inject)
next
  show "PreviousVersion ''7.0.0'' = Inr ''5.6.40''"
    by code_simp
next
  show "PreviousVersion ''5.2'' = Inr ''5.2.0''"
    by (simp add: PreviousVersion_def)
next
  show "PreviousVersion ''5.2.0'' = Inr ''5.2.0''"
    by (simp add: PreviousVersion_def)
qed

theorem C3_PreviousVersion_catalogue_witness:
  "Itoa (int 7) @ ''.'' @ Itoa (int 3) \<in> set PhpMajorVersions \<and> int 8 \<le> MaxInt64
   \<and> PreviousVersion ''7.3.8'' = Inr ''7.3.7''
   \<and> PreviousVersion ''7.3.0'' = Inr ''7.2.21''"
proof -
  have c: "Itoa (int 7) @ ''.'' @ Itoa (int 3) \<in> set PhpMajorVersions"
    by code_simp
  have m: "int 8 \<le> MaxInt64"
    by (simp add: MaxInt64_def)
  have e: "Itoa (int 7) @ ''.'' @ Itoa (int 3) @ ''.'' @ Itoa (int 8) = ''7.3.8''"
    "Itoa (int 7) @ ''.'' @ Itoa (int 3) @ ''.'' @ Itoa (int 8 - 1) = ''7.3.7''"
    "Itoa (int 7) @ ''.'' @ Itoa (int 3) @ ''.'' @ Itoa 0 = ''7.3.0''"
    "phpVersions_at (Itoa (int 7) @ ''.'' @ Itoa (int (3 - 1))) ''max'' = ''7.2.21''"
    by code_simp+
  show ?thesis
    using c m C3_PreviousVersion_catalogue [OF c m] unfolding e by simp
qed

section \<open>Claims about breaking and warning versions\<close>




lemma S1_error: "ToLower ''ERROR'' = ''error''" by code_simp
lemma S1_warning: "ToLower ''WARNING'' = ''warning''" by code_simp

lemma S1_range_GetVersionParts:
  "GetVersionParts S1_MustParse version_lt (0, 0, 0) ''5.2'' ''''
     = (Low S1_range, High S1_range, MajorMinor S1_range, Reported S1_range)"
  by code_simp




lemma bounds_accepts: "bounds_ParseRange ''>=5.2.0 <=5.2.17'' \<noteq> None"
  by code_simp








section \<open>Claims about the ingest stage\<close>

lemma length_state_bytes: "length (state_bytes st) = 32"
  by (cases st rule: state_bytes.cases) (simp add: word_bytes_def)

lemma length_Sum256: "length (Sum256 m) = 32"
  by (simp add: Sum256_def Let_def length_state_bytes)

lemma length_hex: "length (hex bs) = 2 * length bs"
  by (induction bs) (simp_all add: hex_def)

lemma length_combinedChecksum: "length (combinedChecksum sums) = 64"
  by (simp add: combinedChecksum_def length_hex length_Sum256)

lemma combinedChecksum_nonempty: "combinedChecksum sums \<noteq> ''''"
  using length_combinedChecksum [of sums] by auto


lemma hex_Sum256_nonempty: "hex (Sum256 m) \<noteq> []"
  using length_hex [of "Sum256 m"] by (auto simp: length_Sum256)

lemma PrepareFiles_checksum:
  assumes "PrepareFiles os m d s = (None, m', s')"
  shows "length (checksum m') = 64"
  using assms
  by (auto simp: PrepareFiles_def Let_def length_combinedChecksum split: prod.splits option.splits)

lemma hex_digit_mem: "n < 16 \<Longrightarrow> hex_digit n \<in> set ''0123456789abcdef''"
  unfolding hex_digit_def by (rule nth_mem) simp

lemma of_char_less_256: "(of_char c :: nat) < 256"
proof -
  have "(of_char c :: nat) mod 256 < 256"
    by simp
  then show ?thesis
    by (simp only: of_char_mod_256)
qed

lemma hex_digits: "list_all (\<lambda>c. c \<in> set ''0123456789abcdef'') (hex bs)"
proof -
  have "hex_digit (of_char c div 16) \<in> set ''0123456789abcdef''
      \<and> hex_digit (of_char c mod 16) \<in> set ''0123456789abcdef''" for c
  proof -
    have "(of_char c :: nat) div 16 < 16"
      using of_char_less_256 [of c] by arith
    then show ?thesis
      by (intro conjI hex_digit_mem) simp_all
  qed
  then show ?thesis
    by (induction bs) (simp_all add: hex_def del: set_simps)
qed

lemma combinedChecksum_is_hex_digest: "is_hex_digest (combinedChecksum sums)"
  unfolding is_hex_digest_def
proof (intro conjI)
  show "length (combinedChecksum sums) = 64"
    by (rule length_combinedChecksum)
  show "list_all (\<lambda>c. c \<in> set ''0123456789abcdef'') (combinedChecksum sums)"
    unfolding combinedChecksum_def by (rule hex_digits)
qed

lemma PrepareFiles_hex_digest:
  assumes "PrepareFiles os m d s = (None, m', s')"
  shows "is_hex_digest (checksum m')"
  using assms
  by (auto simp: PrepareFiles_def Let_def combinedChecksum_is_hex_digest
      split: prod.splits option.splits)

lemma Do_never_empty_checksum:
  "fst (Do os GetKind ig s) \<noteq> Some (ProcessError ''could not calculate project checksum'')"
proof -
  have ne: "checksum m' \<noteq> []" if "PrepareFiles os m d s = (None, m', s')" for m d m' s'
    using PrepareFiles_checksum [OF that] by auto
  show ?thesis
    by (auto simp: Do_def Let_def GetChecksum_def ne split: option.splits prod.splits)
qed

lemma example_Do:
  "fst (Do (good_sys []) zip_kind example_ingest empty_fs) = None
   \<and> Result (fst (snd (Do (good_sys []) zip_kind example_ingest empty_fs))) ''files''
       = Some (StringsValue None)
   \<and> Result (fst (snd (Do (good_sys []) zip_kind example_ingest empty_fs))) ''checksum''
       = Some (StringValue (hex (Sum256 ''null'')))"
  by (simp add: Do_def PrepareFiles_def unzip_def downloadFile_def good_sys_def zip_kind_def
      example_ingest_def example_message_def NewZip_def GetChecksum_def GetFiles_def Let_def
      hex_Sum256_nonempty combinedChecksum_def json_Marshal_def)

lemma example_PrepareFiles:
  "fst (PrepareFiles (good_sys []) (NewZip (SourceURL (Message example_ingest)))
     (TempFolder example_ingest @ ''/audit-''
        @ EncodeToString (Sum256 (SourceURL (Message example_ingest)))) empty_fs) = None"
  by (simp add: PrepareFiles_def unzip_def downloadFile_def good_sys_def Let_def)


text \<open>
  C6, as stated, at an archive without entries: the manifest is empty, the digest list is
  the nil slice, \<open>json.Marshal\<close> writes it as \<open>null\<close>, and the checksum is the 64 digits of
  the hash of these four bytes. \<open>Do\<close> returns no error and fills in the result map.
\<close>

theorem C6_empty_manifest_is_accepted:
  "fst (Do (good_sys []) zip_kind example_ingest empty_fs) = None
   \<and> Result (fst (snd (Do (good_sys []) zip_kind example_ingest empty_fs))) ''files''
       = Some (StringsValue None)
   \<and> Result (fst (snd (Do (good_sys []) zip_kind example_ingest empty_fs))) ''checksum''
       = Some (StringValue (hex (Sum256 ''null'')))"
  by (rule example_Do)

text \<open>
  C6, amended: whenever the zip manager has prepared the files without error, also with an
  empty manifest, its checksum is 64 hexadecimal digits, \<open>Do\<close> returns no error and
  stores the checksum, the files and the files path in the result map. \<open>Do\<close> holds no
  source manager but the zip manager, whose checksum after \<open>PrepareFiles\<close> without error
  is never the empty string: the error \<open>could not calculate project checksum\<close> is never
  raised.
\<close>

theorem C6_Do_populates_result:
  "(GetKind (SourceURL (Message ig)) = ''zip''
      \<and> PrepareFiles os (NewZip (SourceURL (Message ig)))
          (TempFolder ig @ ''/audit-'' @ EncodeToString (Sum256 (SourceURL (Message ig)))) s
        = (None, m, s') \<longrightarrow>
    fst (Do os GetKind ig s) = None
    \<and> is_hex_digest (checksum m)
    \<and> Result (fst (snd (Do os GetKind ig s))) ''checksum'' = Some (StringValue (checksum m))
    \<and> Result (fst (snd (Do os GetKind ig s))) ''files'' = Some (StringsValue (files m))
    \<and> Result (fst (snd (Do os GetKind ig s))) ''filesPath''
        = Some (StringValue
            (TempFolder ig @ ''/audit-'' @ EncodeToString (Sum256 (SourceURL (Message ig))))))
   \<and> fst (Do os GetKind ig s) \<noteq> Some (ProcessError ''could not calculate project checksum'')"
proof (intro conjI impI)
  assume a: "GetKind (SourceURL (Message ig)) = ''zip''
      \<and> PrepareFiles os (NewZip (SourceURL (Message ig)))
          (TempFolder ig @ ''/audit-'' @ EncodeToString (Sum256 (SourceURL (Message ig)))) s
        = (None, m, s')"
  then have h: "is_hex_digest (checksum m)"
    using PrepareFiles_hex_digest by blast
  then have ne: "checksum m \<noteq> []"
    by (auto simp: is_hex_digest_def)
  from h show "is_hex_digest (checksum m)" .
  from a ne show "fst (Do os GetKind ig s) = None"
    by (simp add: Do_def Let_def GetChecksum_def GetFiles_def)
  from a ne show "Result (fst (snd (Do os GetKind ig s))) ''checksum'' = Some (StringValue (checksum m))"
    by (simp add: Do_def Let_def GetChecksum_def GetFiles_def)
  from a ne show "Result (fst (snd (Do os GetKind ig s))) ''files'' = Some (StringsValue (files m))"
    by (simp add: Do_def Let_def GetChecksum_def GetFiles_def)
  from a ne show "Result (fst (snd (Do os GetKind ig s))) ''filesPath''
        = Some (StringValue
            (TempFolder ig @ ''/audit-'' @ EncodeToString (Sum256 (SourceURL (Message ig)))))"
    by (simp add: Do_def Let_def GetChecksum_def GetFiles_def)
next
  show "fst (Do os GetKind ig s) \<noteq> Some (ProcessError ''could not calculate project checksum'')"
    by (rule Do_never_empty_checksum)
qed

theorem C6_Do_populates_result_witness:
  "zip_kind (SourceURL (Message example_ingest)) = ''zip''
   \<and> fst (PrepareFiles (good_sys []) (NewZip (SourceURL (Message example_ingest)))
        (TempFolder example_ingest @ ''/audit-''
           @ EncodeToString (Sum256 (SourceURL (Message example_ingest)))) empty_fs) = None
   \<and> fst (Do (good_sys []) zip_kind example_ingest empty_fs) = None
   \<and> is_hex_digest (checksum (fst (snd (PrepareFiles (good_sys [])
        (NewZip (SourceURL (Message example_ingest)))
        (TempFolder example_ingest @ ''/audit-''
           @ EncodeToString (Sum256 (SourceURL (Message example_ingest)))) empty_fs))))"
proof -
  let ?r = "PrepareFiles (good_sys []) (NewZip (SourceURL (Message example_ingest)))
    (TempFolder example_ingest @ ''/audit-''
       @ EncodeToString (Sum256 (SourceURL (Message example_ingest)))) empty_fs"
  have k: "zip_kind (SourceURL (Message example_ingest)) = ''zip''"
    by (simp add: zip_kind_def)
  have p: "?r = (None, fst (snd ?r), snd (snd ?r))"
    using example_PrepareFiles by (metis prod.collapse)
  show ?thesis
    using k p example_PrepareFiles
      C6_Do_populates_result [where GetKind = zip_kind and ig = example_ingest
        and os = "good_sys []" and s = empty_fs and m = "fst (snd ?r)" and s' = "snd (snd ?r)"]
    by simp
qed


text \<open>
  C7, as stated, at a message with an empty slug and no audits, the other fields filled
  in: the message is accepted.
\<close>

theorem C7_slug_and_audits_unchecked:
  "\<not> (validateMessage example_message \<noteq> None \<longleftrightarrow>
        Title example_message = [] \<or> Slug example_message = []
        \<or> SourceURL example_message = [] \<or> SourceType example_message = []
        \<or> ResponseAPIEndpoint example_message = [] \<or> Audits example_message = [])"
  by (simp add: validateMessage_def example_message_def)

text \<open>
  C7, amended: \<open>validateMessage\<close> rejects a message if and only if its title, its response
  endpoint, its source url or its source type is empty; the slug and the audits are not
  read. A rejected message is reported on the error channel and not forwarded; an
  accepted one goes to \<open>Do\<close> and is forwarded when \<open>Do\<close> returns no error.
\<close>

theorem C7_validateMessage_four_fields:
  "(validateMessage msg \<noteq> None \<longleftrightarrow>
      Title msg = [] \<or> ResponseAPIEndpoint msg = [] \<or> SourceURL msg = []
      \<or> SourceType msg = [])
   \<and> (validateMessage msg \<noteq> None \<longrightarrow>
        fst (Run_message os GetKind ig msg s) = Some (InvalidMessage (the (validateMessage msg)))
        \<and> fst (snd (Run_message os GetKind ig msg s)) = None)
   \<and> (validateMessage msg = None \<longrightarrow>
        fst (Run_message os GetKind ig msg s)
          = fst (Do os GetKind (ig\<lparr>Result := Map.empty, Message := msg\<rparr>) s)
        \<and> (fst (Do os GetKind (ig\<lparr>Result := Map.empty, Message := msg\<rparr>) s) = None \<longrightarrow>
             fst (snd (Run_message os GetKind ig msg s))
               = Some (fst (snd (Do os GetKind (ig\<lparr>Result := Map.empty, Message := msg\<rparr>) s)))))"
  by (auto simp: validateMessage_def Run_message_def Let_def split: prod.splits option.splits)

theorem C7_validateMessage_four_fields_witness:
  "validateMessage (example_message\<lparr>Title := []\<rparr>) \<noteq> None
   \<and> fst (snd (Run_message (good_sys []) zip_kind example_ingest
        (example_message\<lparr>Title := []\<rparr>) empty_fs)) = None
   \<and> validateMessage example_message = None
   \<and> fst (Do (good_sys []) zip_kind
        (example_ingest\<lparr>Result := Map.empty, Message := example_message\<rparr>) empty_fs) = None
   \<and> fst (snd (Run_message (good_sys []) zip_kind example_ingest example_message empty_fs))
       \<noteq> None"
proof -
  have r: "validateMessage (example_message\<lparr>Title := []\<rparr>) \<noteq> None"
    by (simp add: validateMessage_def)
  have a: "validateMessage example_message = None"
    by (simp add: validateMessage_def example_message_def)
  have e: "example_ingest\<lparr>Result := Map.empty, Message := example_message\<rparr> = example_ingest"
    by (simp add: example_ingest_def)
  have d: "fst (Do (good_sys []) zip_kind
      (example_ingest\<lparr>Result := Map.empty, Message := example_message\<rparr>) empty_fs) = None"
    unfolding e using example_Do by simp
  show ?thesis
    using r a d
      C7_validateMessage_four_fields [of "example_message\<lparr>Title := []\<rparr>" "good_sys []"
        zip_kind example_ingest empty_fs]
      C7_validateMessage_four_fields [of example_message "good_sys []" zip_kind example_ingest
        empty_fs]
    by simp
qed

section \<open>Claims about the extraction of the archive\<close>
















lemma example_unzip_state:
  "snd (unzip (good_sys example_archive) ''d/source.zip'' ''d/unzipped'' empty_fs)
     = \<lparr>fs_dirs = [''d/unzipped'', ''d/unzipped/bb''],
        fs_files = [(''d/unzipped/bb/y'', ''Y''), (''d/unzipped/x'', ''X'')]\<rparr>"
  by (simp add: unzip_def good_sys_def example_archive_def Let_def TrimPrefix_def Clean_def
      clean_step_def append1_def make_dir_def write_file_def empty_fs_def)






section \<open>Claims about the project checksum\<close>

text \<open>
  The hashes of \<open>null\<close> and of \<open>[]\<close>, each a single block: the block, its compression
  and the digits of the result are computed one after the other.
\<close>

lemma null_blocks:
  "map (\<lambda>i. take 64 (drop (64 * i) (sha_pad ''null''))) [0 ..< length (sha_pad ''null'') div 64]
    = [sha_pad ''null'']"
  by code_simp

lemma null_compress:
  "compress H256 (sha_pad ''null'') =
    (1948470936, 2951170447, 3051024883, 1791154058, 3425932388, 4182798395, 2348914834, 4186093835)"
  by code_simp

lemma null_digits:
  "hex (state_bytes
    (1948470936, 2951170447, 3051024883, 1791154058, 3425932388, 4182798395, 2348914834, 4186093835))
    = ''74234e98afe7498fb5daf1f36ac2d78acc339464f950703b8c019892f982b90b''"
  by code_simp

lemma null_Sum256:
  "hex (Sum256 ''null'') = ''74234e98afe7498fb5daf1f36ac2d78acc339464f950703b8c019892f982b90b''"
  by (simp only: Sum256_def Let_def null_blocks foldl.simps null_compress null_digits)

lemma brackets_blocks:
  "map (\<lambda>i. take 64 (drop (64 * i) (sha_pad ''[]''))) [0 ..< length (sha_pad ''[]'') div 64]
    = [sha_pad ''[]'']"
  by code_simp

lemma brackets_compress:
  "compress H256 (sha_pad ''[]'') =
    (1330892193, 2351671820, 55884639, 2587806693, 3977423693, 2383526535, 1009717526, 302168389)"
  by code_simp

lemma brackets_digits:
  "hex (state_bytes
    (1330892193, 2351671820, 55884639, 2587806693, 3977423693, 2383526535, 1009717526, 302168389))
    = ''4f53cda18c2baa0c0354bb5f9a3ecbe5ed12ab4d8e11ba873c2f11161202b945''"
  by code_simp

lemma brackets_Sum256:
  "hex (Sum256 ''[]'') = ''4f53cda18c2baa0c0354bb5f9a3ecbe5ed12ab4d8e11ba873c2f11161202b945''"
  by (simp only: Sum256_def Let_def brackets_blocks foldl.simps brackets_compress brackets_digits)

text \<open>
  C5, as stated, at the nil slice, which is the digest list of an archive without regular
  files: \<open>json.Marshal\<close> writes it as \<open>null\<close>, not as the empty array, and the two hashes
  differ.
\<close>

theorem C5_nil_is_not_an_array:
  "combinedChecksum None \<noteq> spec_checksum []"
proof -
  have "combinedChecksum None = hex (Sum256 ''null'')"
    by (simp add: combinedChecksum_def json_Marshal_def)
  moreover have "spec_checksum [] = hex (Sum256 ''[]'')"
    by (simp add: spec_checksum_def spec_json_array_def)
  ultimately show ?thesis
    by (simp add: null_Sum256 brackets_Sum256)
qed

lemma json_escape_hex_digit:
  assumes "c \<in> set ''0123456789abcdef''"
  shows "json_escape c = [c]"
  using assms by (auto simp: json_escape_def)

lemma json_string_hex:
  assumes "list_all (\<lambda>c. c \<in> set ''0123456789abcdef'') d"
  shows "concat (map json_escape d) = d"
  using assms by (induction d) (simp_all add: json_escape_hex_digit del: set_simps)

lemma json_string_digest:
  assumes "is_hex_digest d"
  shows "json_string d = [CHR 0x22] @ d @ [CHR 0x22]"
  using assms by (simp add: json_string_def is_hex_digest_def json_string_hex)

lemma json_Marshal_digests:
  assumes "list_all is_hex_digest ds"
  shows "json_Marshal (Some ds) = spec_json_array ds"
proof -
  from assms have "map json_string ds = map (\<lambda>d. [CHR 0x22] @ d @ [CHR 0x22]) ds"
    by (induction ds) (simp_all add: json_string_digest)
  then show ?thesis
    by (simp only: json_Marshal_def spec_json_array_def option.case)
qed

text \<open>
  C5, amended: for every list of hexadecimal digests that is not the nil slice, the
  checksum is the SHA-256, in hexadecimal, of the compact JSON array of the digests sorted
  ascending; for the nil slice it is that of the JSON literal \<open>null\<close>; and every permutation
  of a digest list has the same checksum.
\<close>

theorem C5_checksum_of_sorted_digests:
  assumes digests: "list_all is_hex_digest ds"
    and perm: "mset ds' = mset ds"
  shows "combinedChecksum (Some ds) = spec_checksum ds
    \<and> combinedChecksum (Some ds') = combinedChecksum (Some ds)
    \<and> combinedChecksum None = hex (Sum256 ''null'')"
proof -
  from digests have "list_all is_hex_digest (sort ds)"
    by (simp add: list_all_iff)
  then have a: "combinedChecksum (Some ds) = spec_checksum ds"
    by (simp add: combinedChecksum_def spec_checksum_def json_Marshal_digests)
  have "sort ds' = sort ds"
    using perm by (intro properties_for_sort) simp_all
  then have b: "combinedChecksum (Some ds') = combinedChecksum (Some ds)"
    by (simp add: combinedChecksum_def)
  have c: "combinedChecksum None = hex (Sum256 ''null'')"
    by (simp add: combinedChecksum_def json_Marshal_def)
  from a b c show ?thesis
    by simp
qed

theorem C5_checksum_of_sorted_digests_witness:
  "list_all is_hex_digest [digest_X, digest_Y]
   \<and> mset [digest_Y, digest_X] = mset [digest_X, digest_Y]
   \<and> combinedChecksum (Some [digest_X, digest_Y]) = spec_checksum [digest_X, digest_Y]
   \<and> combinedChecksum (Some [digest_Y, digest_X]) = combinedChecksum (Some [digest_X, digest_Y])"
proof -
  have d: "list_all is_hex_digest [digest_X, digest_Y]"
    by (simp add: is_hex_digest_def digest_X_def digest_Y_def)
  have p: "mset [digest_Y, digest_X] = mset [digest_X, digest_Y]"
    by simp
  from C5_checksum_of_sorted_digests [OF d p] d p show ?thesis
    by simp
qed

end
